theory Spec2Isabelle
  imports Complex_Main
begin

section \<open>Tracks of the classifier pipeline (track/track.py)\<close>

text \<open>
  A shallow embedding of the class \<^verbatim>\<open>Track\<close>. Python numbers are modelled as exact
  numbers: \<^typ>\<open>int\<close> for frame numbers and indices, \<^typ>\<open>real\<close> for coordinates,
  sizes, masses and variances (the rounding of binary floating point is not modelled).
  Every exception of the source is a value \<open>Inl e\<close> of the result.
\<close>

datatype error = IndexError | ZeroDivisionError | TypeError

subsection \<open>Python values and helpers\<close>

text \<open>The values the constructor's argument \<^verbatim>\<open>id\<close> may take, with Python's truth test.\<close>

datatype pyval = PyNone | PyBool bool | PyInt int | PyStr string

fun truthy :: "pyval \<Rightarrow> bool" where
  "truthy PyNone = False"
| "truthy (PyBool b) = b"
| "truthy (PyInt i) = (i \<noteq> 0)"
| "truthy (PyStr s) = (s \<noteq> [])"

text \<open>\<^verbatim>\<open>int(x)\<close> truncates towards zero.\<close>

definition py_int :: "real \<Rightarrow> int" where
  "py_int v = (if 0 \<le> v then \<lfloor>v\<rfloor> else \<lceil>v\<rceil>)"

text \<open>\<^verbatim>\<open>np.mean\<close> and \<^verbatim>\<open>np.median\<close> on a non-empty list.\<close>

definition np_mean :: "real list \<Rightarrow> real" where
  "np_mean vs = sum_list vs / real (length vs)"

definition np_median :: "real list \<Rightarrow> real" where
  "np_median vs =
     (let s = sort vs; n = length vs
      in if odd n then s ! (n div 2) else (s ! (n div 2 - 1) + s ! (n div 2)) / 2)"

text \<open>\<^verbatim>\<open>max\<close> over a non-empty sequence: the running maximum, from the first element.\<close>

definition py_max :: "real list \<Rightarrow> real" where
  "py_max vs = fold max (tl vs) (hd vs)"

subsection \<open>Region\<close>

text \<open>
  Modelled from the spec: the class \<^verbatim>\<open>Region\<close> (track/region.py) and its base
  \<^verbatim>\<open>Rectangle\<close> (ml_tools/tools.py) are not among the sources. The record has the
  fields that section 6 of the specification lists for a Region. Its constructor, \<^verbatim>\<open>crop\<close>
  and \<^verbatim>\<open>overlap_area\<close> are parameters of the functions that call them.
\<close>

record region =
  mid_x :: real
  mid_y :: real
  width :: real
  height :: real
  area :: real
  mass :: real
  pixel_variance :: real
  frame_index :: int

text \<open>
  Modelled from the spec: \<^verbatim>\<open>copy()\<close> is a deep value copy. It returns a new object, so
  a later assignment to a field of the copy changes no other entry of a history.
\<close>

definition copy :: "region \<Rightarrow> region" where
  "copy r = r"

subsection \<open>Track and its constructor\<close>

text \<open>
  The class attribute \<^verbatim>\<open>Track._track_id\<close> is the state of the class; an instance may
  carry an attribute of the same name, which is absent (\<open>None\<close>) until it is assigned.
\<close>

record track_class =
  cls_track_id :: int

definition Track_class :: track_class where
  "Track_class = \<lparr>cls_track_id = 1\<rparr>"

record track =
  id' :: pyval
  self_track_id :: "int option"
  start_frame :: int
  bounds_history :: "region list"
  frames_since_target_seen :: int
  vel_x :: real
  vel_y :: real
  tag :: string

text \<open>
  \<^verbatim>\<open>self._track_id\<close> reads the instance attribute if there is one, else the class
  attribute. \<^verbatim>\<open>self._track_id += 1\<close> reads it so and assigns the sum to the instance
  attribute; the class attribute is not assigned. A new instance has no attribute yet.
\<close>

definition Track_init :: "track_class \<Rightarrow> pyval \<Rightarrow> track_class \<times> track" where
  "Track_init cls i =
     (let (ident, own) =
            (if \<not> truthy i then (PyInt (cls_track_id cls), Some (cls_track_id cls + 1))
             else (i, None))
      in (cls,
          \<lparr>id' = ident, self_track_id = own, start_frame = 0, bounds_history = [],
           frames_since_target_seen = 0, vel_x = 0, vel_y = 0, tag = ''unknown''\<rparr>))"

subsection \<open>add_frame and add_blank_frame\<close>

text \<open>\<^verbatim>\<open>len(self)\<close> is the length of the history.\<close>

definition len :: "track \<Rightarrow> nat" where
  "len t = length (bounds_history t)"

definition add_frame :: "track \<Rightarrow> region \<Rightarrow> track" where
  "add_frame t bounds =
     (let h = bounds_history t @ [copy bounds];
          n = length h
      in if n \<ge> 2
         then t\<lparr>bounds_history := h, frames_since_target_seen := 0,
                vel_x := mid_x (h ! (n - 1)) - mid_x (h ! (n - 2)),
                vel_y := mid_y (h ! (n - 1)) - mid_y (h ! (n - 2))\<rparr>
         else t\<lparr>bounds_history := h, frames_since_target_seen := 0,
                vel_x := 0, vel_y := 0\<rparr>)"

text \<open>
  The property \<^verbatim>\<open>bounds\<close> is \<^verbatim>\<open>bounds_history[-1]\<close>: it raises IndexError on an
  empty history. After the append it is the new copy, which the three assignments change.
\<close>

definition bounds :: "track \<Rightarrow> error + region" where
  "bounds t = (if bounds_history t = [] then Inl IndexError else Inr (last (bounds_history t)))"

definition set_bounds :: "(region \<Rightarrow> region) \<Rightarrow> region list \<Rightarrow> region list" where
  "set_bounds f h = h[length h - 1 := f (h ! (length h - 1))]"

definition add_blank_frame :: "track \<Rightarrow> error + track" where
  "add_blank_frame t =
     (case bounds t of
        Inl e \<Rightarrow> Inl e
      | Inr b \<Rightarrow>
          (let h1 = bounds_history t @ [copy b];
               h2 = set_bounds (\<lambda>r. r\<lparr>mass := 0\<rparr>) h1;
               h3 = set_bounds (\<lambda>r. r\<lparr>pixel_variance := 0\<rparr>) h2;
               h4 = set_bounds (\<lambda>r. r\<lparr>frame_index := frame_index r + 1\<rparr>) h3
           in Inr (t\<lparr>bounds_history := h4, vel_x := 0, vel_y := 0\<rparr>)))"

subsection \<open>get_stats\<close>

record TrackMovementStatistics =
  movement :: real
  max_offset :: real
  score :: real
  average_mass :: real
  median_mass :: real
  delta_std :: real

text \<open>The constructor's defaults: every field is 0.\<close>

definition TrackMovementStatistics_default :: TrackMovementStatistics where
  "TrackMovementStatistics_default =
     \<lparr>movement = 0, max_offset = 0, score = 0, average_mass = 0, median_mass = 0,
      delta_std = 0\<rparr>"

text \<open>
  \<^verbatim>\<open>v ** 0.5\<close> is the square root of a float \<open>v \<ge> 0\<close>. Of a negative float it is a
  complex number, and \<^verbatim>\<open>min(delta_points, 100)\<close> then raises TypeError (a complex
  number and an int are not ordered). The sums of squares and \<open>movement\<close> are never negative.
\<close>

definition get_stats :: "track \<Rightarrow> error + TrackMovementStatistics" where
  "get_stats t =
     (if len t \<le> 1 then Inr TrackMovementStatistics_default
      else
        let mass_history = map (\<lambda>bound. py_int (mass bound)) (bounds_history t);
            variance_history = map pixel_variance (bounds_history t);
            mid_xs = map mid_x (bounds_history t);
            mid_ys = map mid_y (bounds_history t);
            delta_x = map (\<lambda>v. mid_xs ! 0 - v) mid_xs;
            delta_y = map (\<lambda>v. mid_ys ! 0 - v) mid_ys;
            vel_xs = map (\<lambda>(cur, prev). cur - prev) (zip (tl mid_xs) (butlast mid_xs));
            vel_ys = map (\<lambda>(cur, prev). cur - prev) (zip (tl mid_ys) (butlast mid_ys));
            movement = sum_list (map (\<lambda>(vx, vy). sqrt (vx\<^sup>2 + vy\<^sup>2)) (zip vel_xs vel_ys));
            max_offset = py_max (map (\<lambda>(dx, dy). sqrt (dx\<^sup>2 + dy\<^sup>2)) (zip delta_x delta_y));
            mean_variance = np_mean variance_history
        in if mean_variance < 0 then Inl TypeError
           else
             let delta_std = sqrt mean_variance;
                 movement_points = sqrt movement + max_offset;
                 delta_points = delta_std * 25;
                 score = min movement_points 100 + min delta_points 100
             in Inr \<lparr>movement = movement, max_offset = max_offset, score = score,
                     average_mass = np_mean (map real_of_int mass_history),
                     median_mass = np_median (map real_of_int mass_history),
                     delta_std = delta_std\<rparr>)"

subsection \<open>smooth\<close>

text \<open>
  The constructor \<^verbatim>\<open>Region(x, y, width, height)\<close> and \<^verbatim>\<open>crop\<close> are the parameters
  \<open>Region\<close> and \<open>crop\<close>; the frame's rectangle is of any type \<open>'rect\<close>. The three
  assignments before the loop read entries 0, 0 and 1 of the history; the last one raises
  IndexError when the history has a single entry.
\<close>

definition smooth_frame ::
  "(int \<Rightarrow> int \<Rightarrow> int \<Rightarrow> int \<Rightarrow> region) \<Rightarrow> ('rect \<Rightarrow> region \<Rightarrow> region) \<Rightarrow> 'rect \<Rightarrow>
   region list \<Rightarrow> nat \<Rightarrow> region" where
  "smooth_frame Region crop frame_bounds h i =
     (let prev_frame = h ! nat (max 0 (int i - 1));
          current_frame = h ! i;
          next_frame = h ! (min (length h - 1) (i + 1));
          frame_x = mid_x current_frame;
          frame_y = mid_y current_frame;
          frame_width = (width prev_frame + width current_frame + width next_frame) / 3;
          frame_height = (height prev_frame + height current_frame + height next_frame) / 3;
          frame = Region (py_int (frame_x - frame_width / 2)) (py_int (frame_y - frame_height / 2))
                    (py_int frame_width) (py_int frame_height)
      in crop frame_bounds frame)"

definition smooth ::
  "(int \<Rightarrow> int \<Rightarrow> int \<Rightarrow> int \<Rightarrow> region) \<Rightarrow> ('rect \<Rightarrow> region \<Rightarrow> region) \<Rightarrow> 'rect \<Rightarrow>
   track \<Rightarrow> error + track" where
  "smooth Region crop frame_bounds t =
     (if length (bounds_history t) = 0 then Inr t
      else if length (bounds_history t) \<le> 1 then Inl IndexError
      else Inr (t\<lparr>bounds_history :=
                    map (smooth_frame Region crop frame_bounds (bounds_history t))
                      [0 ..< length (bounds_history t)]\<rparr>))"

subsection \<open>trim\<close>

text \<open>The two \<^verbatim>\<open>while\<close> loops; \<open>end\<close> is \<open>- 1\<close> on an empty history.\<close>

function trim_start :: "int list \<Rightarrow> nat \<Rightarrow> nat" where
  "trim_start mass_history start =
     (if start < length mass_history \<and> mass_history ! start \<le> 2
      then trim_start mass_history (start + 1) else start)"
  by pat_completeness auto
termination
  by (relation "measure (\<lambda>(mass_history, start). length mass_history - start)") auto

function trim_end :: "int list \<Rightarrow> int \<Rightarrow> int" where
  "trim_end mass_history end =
     (if end > 0 \<and> mass_history ! nat end \<le> 2
      then trim_end mass_history (end - 1) else end)"
  by pat_completeness auto
termination
  by (relation "measure (\<lambda>(mass_history, end). nat end)") auto

declare trim_start.simps [simp del] trim_end.simps [simp del]

text \<open>The slice \<^verbatim>\<open>h[a:b]\<close> for \<open>0 \<le> a\<close> and \<open>0 \<le> b\<close>.\<close>

definition slice :: "'a list \<Rightarrow> nat \<Rightarrow> nat \<Rightarrow> 'a list" where
  "slice h a b = take (b - a) (drop a h)"

definition trim :: "track \<Rightarrow> track" where
  "trim t =
     (let mass_history = map (\<lambda>bound. py_int (mass bound)) (bounds_history t);
          start = trim_start mass_history 0;
          end = trim_end mass_history (int (len t) - 1)
      in if end < int start
         then t\<lparr>start_frame := 0, bounds_history := []\<rparr>
         else t\<lparr>start_frame := start_frame t + int start,
                bounds_history := slice (bounds_history t) start (nat (end + 1))\<rparr>)"

subsection \<open>get_track_region_score\<close>

definition get_track_region_score :: "track \<Rightarrow> region \<Rightarrow> error + (real \<times> real)" where
  "get_track_region_score t region =
     (case bounds t of
        Inl e \<Rightarrow> Inl e
      | Inr b \<Rightarrow>
          (let expected_x = py_int (mid_x b + vel_x t);
               expected_y = py_int (mid_y b + vel_y t);
               distance = sqrt ((mid_x region - real_of_int expected_x)\<^sup>2
                                + (mid_y region - real_of_int expected_y)\<^sup>2)
           in if area b + 50 = 0 then Inl ZeroDivisionError
              else Inr (distance, \<bar>area region - area b\<bar> / (area b + 50) * 100)))"

subsection \<open>get_overlap_ratio\<close>

text \<open>
  The loop over \<^verbatim>\<open>range(start, end + 1)\<close>, with the count so far. The method
  \<^verbatim>\<open>overlap_area\<close> is the parameter \<open>overlap_area\<close>. Dividing by an area of 0 raises
  ZeroDivisionError.
\<close>

fun overlap_loop ::
  "(region \<Rightarrow> region \<Rightarrow> real) \<Rightarrow> track \<Rightarrow> track \<Rightarrow> real \<Rightarrow> int list \<Rightarrow> nat \<Rightarrow> error + nat" where
  "overlap_loop overlap_area t other_track threshold [] frames_overlapped = Inr frames_overlapped"
| "overlap_loop overlap_area t other_track threshold (pos # rest) frames_overlapped =
     (let our_index = pos - start_frame t;
          other_index = pos - start_frame other_track
      in if our_index \<ge> 0 \<and> other_index \<ge> 0 \<and> our_index < int (len t)
            \<and> other_index < int (len other_track)
         then
           let our_bounds = bounds_history t ! nat our_index;
               other_bounds = bounds_history other_track ! nat other_index
           in if area our_bounds = 0 then Inl ZeroDivisionError
              else if overlap_area our_bounds other_bounds / area our_bounds \<ge> threshold
              then overlap_loop overlap_area t other_track threshold rest (frames_overlapped + 1)
              else overlap_loop overlap_area t other_track threshold rest frames_overlapped
         else overlap_loop overlap_area t other_track threshold rest frames_overlapped)"

definition get_overlap_ratio ::
  "(region \<Rightarrow> region \<Rightarrow> real) \<Rightarrow> track \<Rightarrow> track \<Rightarrow> real \<Rightarrow> error + real" where
  "get_overlap_ratio overlap_area t other_track threshold =
     (if len t = 0 \<or> len other_track = 0 then Inr 0
      else
        let start = max (start_frame t) (start_frame other_track);
            end = min (start_frame t + int (len t))
                      (start_frame other_track + int (len other_track))
        in case overlap_loop overlap_area t other_track threshold [start .. end] 0 of
             Inl e \<Rightarrow> Inl e
           | Inr frames_overlapped \<Rightarrow> Inr (real frames_overlapped / real (len t)))"

section \<open>Specification vocabulary\<close>

text \<open>A frame is empty when its truncated mass is at most 2.\<close>

definition empty_frame :: "region \<Rightarrow> bool" where
  "empty_frame b = (py_int (mass b) \<le> 2)"

text \<open>The history that remains: the leading and the trailing run of empty frames dropped.\<close>

definition trimmed :: "region list \<Rightarrow> region list" where
  "trimmed h = rev (dropWhile empty_frame (rev (dropWhile empty_frame h)))"

text \<open>
  The velocity is current when it is the difference of the midpoints of the last two entries
  of the history, and 0 when the history has fewer than two entries.
\<close>

definition velocity_current :: "track \<Rightarrow> bool" where
  "velocity_current t =
     (let h = bounds_history t; n = length h
      in if n \<ge> 2
         then vel_x t = mid_x (h ! (n - 1)) - mid_x (h ! (n - 2))
              \<and> vel_y t = mid_y (h ! (n - 1)) - mid_y (h ! (n - 2))
         else vel_x t = 0 \<and> vel_y t = 0)"

text \<open>
  The distance as the specification words it: from the region's midpoint to the last
  bounds' midpoint plus the velocity, with no truncation.
\<close>

definition spec_distance :: "track \<Rightarrow> region \<Rightarrow> real" where
  "spec_distance t region =
     (let b = last (bounds_history t)
      in sqrt ((mid_x region - (mid_x b + vel_x t))\<^sup>2 + (mid_y region - (mid_y b + vel_y t))\<^sup>2))"

text \<open>
  Frame \<open>i\<close> of a track is shared when the other track has an entry for the same absolute
  frame number; it overlaps when, moreover, the overlap area over the track's own area
  reaches the threshold.
\<close>

definition shared_frame :: "track \<Rightarrow> track \<Rightarrow> nat \<Rightarrow> bool" where
  "shared_frame t other_track i =
     (0 \<le> start_frame t + int i - start_frame other_track
      \<and> start_frame t + int i - start_frame other_track < int (len other_track))"

definition frame_overlaps ::
  "(region \<Rightarrow> region \<Rightarrow> real) \<Rightarrow> track \<Rightarrow> track \<Rightarrow> real \<Rightarrow> nat \<Rightarrow> bool" where
  "frame_overlaps overlap_area t other_track threshold i =
     (shared_frame t other_track i
      \<and> threshold \<le> overlap_area (bounds_history t ! i)
             (bounds_history other_track ! nat (start_frame t + int i - start_frame other_track))
           / area (bounds_history t ! i))"

definition count_overlapped ::
  "(region \<Rightarrow> region \<Rightarrow> real) \<Rightarrow> track \<Rightarrow> track \<Rightarrow> real \<Rightarrow> nat" where
  "count_overlapped overlap_area t other_track threshold =
     length (filter (frame_overlaps overlap_area t other_track threshold) [0 ..< len t])"

definition ranges_disjoint :: "track \<Rightarrow> track \<Rightarrow> bool" where
  "ranges_disjoint t other_track =
     (start_frame t + int (len t) \<le> start_frame other_track
      \<or> start_frame other_track + int (len other_track) \<le> start_frame t)"

text \<open>The positions of the loop that pass its index test, and those it counts.\<close>

definition in_both :: "track \<Rightarrow> track \<Rightarrow> int \<Rightarrow> bool" where
  "in_both t other_track pos =
     (pos - start_frame t \<ge> 0 \<and> pos - start_frame other_track \<ge> 0
      \<and> pos - start_frame t < int (len t) \<and> pos - start_frame other_track < int (len other_track))"

definition counted :: "(region \<Rightarrow> region \<Rightarrow> real) \<Rightarrow> track \<Rightarrow> track \<Rightarrow> real \<Rightarrow> int \<Rightarrow> bool" where
  "counted overlap_area t other_track threshold pos =
     (in_both t other_track pos
      \<and> threshold \<le> overlap_area (bounds_history t ! nat (pos - start_frame t))
             (bounds_history other_track ! nat (pos - start_frame other_track))
           / area (bounds_history t ! nat (pos - start_frame t)))"

text \<open>
  The statistics as the specification words them: the distance between two midpoints, the
  sum of the distances between consecutive frames, the greatest distance from the first
  frame, and the masses truncated to integers.
\<close>

definition mid_distance :: "region \<Rightarrow> region \<Rightarrow> real" where
  "mid_distance a b = sqrt ((mid_x a - mid_x b)\<^sup>2 + (mid_y a - mid_y b)\<^sup>2)"

definition spec_movement :: "region list \<Rightarrow> real" where
  "spec_movement h = sum_list (map (\<lambda>i. mid_distance (h ! (i + 1)) (h ! i)) [0 ..< length h - 1])"

definition spec_max_offset :: "region list \<Rightarrow> real" where
  "spec_max_offset h = Max ((\<lambda>b. mid_distance b (h ! 0)) ` set h)"

definition int_masses :: "region list \<Rightarrow> real list" where
  "int_masses h = map (\<lambda>b. real_of_int (py_int (mass b))) h"

definition spec_stats :: "region list \<Rightarrow> TrackMovementStatistics" where
  "spec_stats h =
     \<lparr>movement = spec_movement h,
      max_offset = spec_max_offset h,
      score = min (sqrt (spec_movement h) + spec_max_offset h) 100
              + min (sqrt (np_mean (map pixel_variance h)) * 25) 100,
      average_mass = np_mean (int_masses h),
      median_mass = np_median (int_masses h),
      delta_std = sqrt (np_mean (map pixel_variance h))\<rparr>"

subsection \<open>Example tracks\<close>

text \<open>
  A region of width and height 2 with the midpoint \<open>(mx, 1)\<close> and the mass \<open>m\<close>, and
  tracks built from such regions.
\<close>

definition region_at :: "real \<Rightarrow> real \<Rightarrow> region" where
  "region_at mx m =
     \<lparr>mid_x = mx, mid_y = 1, width = 2, height = 2, area = 4, mass = m, pixel_variance = 0,
      frame_index = 0\<rparr>"

definition new_track :: track where
  "new_track = snd (Track_init Track_class PyNone)"

definition blinking_track :: track where
  "blinking_track =
     new_track\<lparr>start_frame := 7,
       bounds_history := [region_at 0 1, region_at 0 1, region_at 0 50, region_at 0 50, region_at 0 1]\<rparr>"

definition moving_track :: track where
  "moving_track = add_frame (add_frame new_track (region_at 0 50)) (region_at 5 1)"

definition stale_track :: track where
  "stale_track = trim moving_track"

text \<open>A region of odd width, whose midpoint has a fractional coordinate, and a track of it.\<close>

definition half_pixel_region :: region where
  "half_pixel_region =
     \<lparr>mid_x = 1 / 2, mid_y = 1, width = 1, height = 2, area = 2, mass = 50, pixel_variance = 0,
      frame_index = 0\<rparr>"

definition still_track :: track where
  "still_track = add_frame new_track half_pixel_region"

text \<open>
  Modelled from the spec: \<^verbatim>\<open>overlap_area\<close> of the absent class Rectangle is the area of
  the intersection of the two rectangles. It is used for the concrete examples only.
\<close>

definition rectangle_overlap_area :: "region \<Rightarrow> region \<Rightarrow> real" where
  "rectangle_overlap_area a b =
     max 0 (min (mid_x a + width a / 2) (mid_x b + width b / 2)
            - max (mid_x a - width a / 2) (mid_x b - width b / 2))
     * max 0 (min (mid_y a + height a / 2) (mid_y b + height b / 2)
              - max (mid_y a - height a / 2) (mid_y b - height b / 2))"

text \<open>A region of width 0, a track of it, and two tracks of five equal regions each.\<close>

definition flat_region :: region where
  "flat_region =
     \<lparr>mid_x = 3, mid_y = 1, width = 0, height = 2, area = 0, mass = 50, pixel_variance = 0,
      frame_index = 0\<rparr>"

definition flat_track :: track where
  "flat_track = add_frame new_track flat_region"

definition track_A :: track where
  "track_A =
     new_track\<lparr>bounds_history :=
       [region_at 0 50, region_at 0 50, region_at 0 50, region_at 0 50, region_at 0 50]\<rparr>"

definition track_B :: track where
  "track_B =
     new_track\<lparr>start_frame := 2, bounds_history :=
       [region_at 0 50, region_at 0 50, region_at 0 50, region_at 0 50, region_at 0 50]\<rparr>"

text \<open>Two frames of pixel variance \<open>- 1\<close>, and three equal frames of mass 10.\<close>

definition negative_variance_track :: track where
  "negative_variance_track =
     add_frame (add_frame new_track ((region_at 0 50)\<lparr>pixel_variance := - 1\<rparr>))
       ((region_at 0 50)\<lparr>pixel_variance := - 1\<rparr>)"

definition steady_track :: track where
  "steady_track =
     add_frame (add_frame (add_frame new_track (region_at 0 10)) (region_at 0 10)) (region_at 0 10)"

section \<open>Properties\<close>

subsection \<open>The constructor\<close>

text \<open>
  C1. Ids given without an explicit id are meant to come from a counter that starts at 1
  and grows, so that two such tracks have distinct ids. The constructor never assigns the
  class attribute: starting from the class as it is defined, two tracks constructed one
  after the other without an id both have the id 1, and the class attribute is still 1.
\<close>

theorem Track_init_auto_ids_collide:
  "id' (snd (Track_init Track_class PyNone)) = PyInt 1
   \<and> id' (snd (Track_init (fst (Track_init Track_class PyNone)) PyNone)) = PyInt 1
   \<and> cls_track_id (fst (Track_init Track_class PyNone)) = 1
   \<and> cls_track_id (fst (Track_init (fst (Track_init Track_class PyNone)) PyNone)) = 1"
  by (simp add: Track_init_def Track_class_def)

text \<open>
  C10. An explicit id that is falsy (0, \<open>False\<close>, the empty string) is treated as absent:
  the track is the one constructed without an id, with the id read from the counter.
\<close>

theorem Track_init_falsy_id:
  "\<not> truthy i \<Longrightarrow>
     Track_init cls i = Track_init cls PyNone
     \<and> id' (snd (Track_init cls i)) = PyInt (cls_track_id cls)"
  by (simp add: Track_init_def)

theorem Track_init_falsy_id_witness:
  "\<not> truthy (PyInt 0)
   \<and> Track_init Track_class (PyInt 0) = Track_init Track_class PyNone
   \<and> id' (snd (Track_init Track_class (PyInt 0))) = PyInt 1"
  using Track_init_falsy_id [of "PyInt 0" Track_class]
  by (simp add: Track_class_def Track_init_def)

subsection \<open>smooth\<close>

text \<open>
  C2. smooth is meant to succeed on every non-empty history, one of a single entry
  included. On the empty history it returns the track as it is. On a history of exactly
  one entry it raises IndexError, whatever the entry, the frame and the Region operations:
  the assignment \<^verbatim>\<open>next_frame = self.bounds_history[1]\<close> before the loop reads past the end.
\<close>

theorem smooth_single_entry_fails:
  "smooth Region crop frame_bounds (t\<lparr>bounds_history := []\<rparr>) = Inr (t\<lparr>bounds_history := []\<rparr>)
   \<and> smooth Region crop frame_bounds (t\<lparr>bounds_history := [r]\<rparr>) = Inl IndexError"
  by (simp add: smooth_def)

text \<open>
  On a history of two or more entries smooth returns, and the new history has one smoothed
  frame for each index, in order.
\<close>

lemma smooth_longer_history:
  assumes "2 \<le> length (bounds_history t)"
  shows "\<exists>t'. smooth Region crop frame_bounds t = Inr t'
           \<and> length (bounds_history t') = length (bounds_history t)
           \<and> (\<forall>i<length (bounds_history t).
                 bounds_history t' ! i = smooth_frame Region crop frame_bounds (bounds_history t) i)"
  using assms by (simp add: smooth_def)

subsection \<open>trim\<close>

lemma trim_start_run:
  "start \<le> k \<Longrightarrow> k \<le> length ms \<Longrightarrow> (\<forall>i. start \<le> i \<and> i < k \<longrightarrow> ms ! i \<le> 2) \<Longrightarrow>
   (k < length ms \<longrightarrow> \<not> ms ! k \<le> 2) \<Longrightarrow> trim_start ms start = k"
proof (induction "k - start" arbitrary: start)
  case 0
  then have "start = k" by simp
  with 0 show ?case by (subst trim_start.simps) auto
next
  case (Suc d)
  then have lt: "start < k" by simp
  with Suc.prems have "start < length ms" "ms ! start \<le> 2" by auto
  then have "trim_start ms start = trim_start ms (start + 1)"
    by (subst trim_start.simps) simp
  also have "\<dots> = k"
    using Suc.hyps(1) [of "start + 1"] Suc.hyps(2) Suc.prems lt by auto
  finally show ?case .
qed

lemma trim_end_run:
  "k \<le> e \<Longrightarrow> (\<forall>i. k < i \<and> i \<le> e \<longrightarrow> ms ! i \<le> 2) \<Longrightarrow> (0 < k \<longrightarrow> \<not> ms ! k \<le> 2) \<Longrightarrow>
   trim_end ms (int e) = int k"
proof (induction "e - k" arbitrary: e)
  case 0
  then have "e = k" by simp
  with 0 show ?case by (subst trim_end.simps) auto
next
  case (Suc d)
  then have lt: "k < e" by simp
  with Suc.prems have "0 < e" "ms ! e \<le> 2" by auto
  then have "trim_end ms (int e) = trim_end ms (int (e - 1))"
    by (subst trim_end.simps) (simp add: of_nat_diff)
  also have "\<dots> = int k"
  proof (rule Suc.hyps(1))
    show "d = e - 1 - k" using Suc.hyps(2) by simp
    show "k \<le> e - 1" using lt by simp
    show "\<forall>i. k < i \<and> i \<le> e - 1 \<longrightarrow> ms ! i \<le> 2"
    proof (intro allI impI)
      fix i assume "k < i \<and> i \<le> e - 1"
      then have "k < i \<and> i \<le> e" by arith
      with Suc.prems(2) show "ms ! i \<le> 2" by blast
    qed
    show "0 < k \<longrightarrow> \<not> ms ! k \<le> 2" using Suc.prems(3) .
  qed
  finally show ?case .
qed


lemma takeWhile_run:
  assumes "i < length (takeWhile P xs)"
  shows "P (xs ! i)"
proof -
  have "takeWhile P xs ! i \<in> set (takeWhile P xs)" using assms by simp
  then have "P (takeWhile P xs ! i)" by (rule set_takeWhileD [THEN conjunct2])
  then show ?thesis using assms by (simp add: takeWhile_nth)
qed

lemma trim_start_takeWhile:
  "trim_start (map (\<lambda>b. py_int (mass b)) h) 0 = length (takeWhile empty_frame h)"
proof (rule trim_start_run)
  let ?k = "length (takeWhile empty_frame h)"
  show "0 \<le> ?k" by simp
  show "?k \<le> length (map (\<lambda>b. py_int (mass b)) h)" by (simp add: length_takeWhile_le)
  show "\<forall>i. 0 \<le> i \<and> i < ?k \<longrightarrow> map (\<lambda>b. py_int (mass b)) h ! i \<le> 2"
  proof (intro allI impI)
    fix i assume a: "0 \<le> i \<and> i < ?k"
    then have "empty_frame (h ! i)" by (simp add: takeWhile_run)
    moreover have "i < length h" using a length_takeWhile_le [of empty_frame h] by simp
    ultimately show "map (\<lambda>b. py_int (mass b)) h ! i \<le> 2" by (simp add: empty_frame_def)
  qed
  show "?k < length (map (\<lambda>b. py_int (mass b)) h) \<longrightarrow> \<not> map (\<lambda>b. py_int (mass b)) h ! ?k \<le> 2"
  proof
    assume "?k < length (map (\<lambda>b. py_int (mass b)) h)"
    then have lt: "?k < length h" by simp
    then have "\<not> empty_frame (h ! ?k)" by (rule nth_length_takeWhile)
    with lt show "\<not> map (\<lambda>b. py_int (mass b)) h ! ?k \<le> 2" by (simp add: empty_frame_def)
  qed
qed


lemma takeWhile_short:
  assumes "\<not> (\<forall>x\<in>set xs. P x)"
  shows "length (takeWhile P xs) < length xs"
proof (rule ccontr)
  assume "\<not> length (takeWhile P xs) < length xs"
  then have "length (takeWhile P xs) = length xs"
    using length_takeWhile_le [of P xs] by simp
  then have "takeWhile P xs = xs"
    using takeWhile_eq_take [of P xs] by simp
  then show False using assms by (simp add: takeWhile_eq_all_conv)
qed

lemma trim_end_all_empty:
  assumes "\<forall>b\<in>set h. empty_frame b"
  shows "trim_end (map (\<lambda>b. py_int (mass b)) h) (int (length h) - 1) < int (length h)
         \<and> (h = [] \<longrightarrow> trim_end (map (\<lambda>b. py_int (mass b)) h) (int (length h) - 1) < 0)
         \<and> (h \<noteq> [] \<longrightarrow> trim_end (map (\<lambda>b. py_int (mass b)) h) (int (length h) - 1) = 0)"
proof (cases "h = []")
  case True
  then show ?thesis by (simp add: trim_end.simps)
next
  case False
  let ?ms = "map (\<lambda>b. py_int (mass b)) h"
  have "trim_end ?ms (int (length h - 1)) = int 0"
  proof (rule trim_end_run)
    show "0 \<le> length h - 1" by simp
    show "\<forall>i. 0 < i \<and> i \<le> length h - 1 \<longrightarrow> ?ms ! i \<le> 2"
    proof (intro allI impI)
      fix i assume "0 < i \<and> i \<le> length h - 1"
      with False have lt: "i < length h" by (cases h) auto
      then have "empty_frame (h ! i)" using assms by simp
      with lt show "?ms ! i \<le> 2" by (simp add: empty_frame_def)
    qed
    show "(0::nat) < 0 \<longrightarrow> \<not> ?ms ! 0 \<le> 2" by simp
  qed
  moreover have "int (length h - 1) = int (length h) - 1" using False by (cases h) auto
  ultimately show ?thesis using False by simp
qed

lemma trim_end_last_kept:
  assumes "\<not> (\<forall>b\<in>set h. empty_frame b)"
  shows "trim_end (map (\<lambda>b. py_int (mass b)) h) (int (length h) - 1)
         = int (length h - 1 - length (takeWhile empty_frame (rev h)))"
proof -
  let ?ms = "map (\<lambda>b. py_int (mass b)) h"
  let ?n = "length (takeWhile empty_frame (rev h))"
  have n: "?n < length h" using takeWhile_short [of "rev h" empty_frame] assms by simp
  have "trim_end ?ms (int (length h - 1)) = int (length h - 1 - ?n)"
  proof (rule trim_end_run)
    show "length h - 1 - ?n \<le> length h - 1" by simp
    show "\<forall>i. length h - 1 - ?n < i \<and> i \<le> length h - 1 \<longrightarrow> ?ms ! i \<le> 2"
    proof (intro allI impI)
      fix i assume a: "length h - 1 - ?n < i \<and> i \<le> length h - 1"
      with n have lt: "i < length h" by arith
      from a n have "length h - Suc i < ?n" by arith
      then have "empty_frame (rev h ! (length h - Suc i))" by (rule takeWhile_run)
      moreover have "rev h ! (length h - Suc i) = h ! i"
        using lt by (simp add: rev_nth)
      ultimately show "?ms ! i \<le> 2" using lt by (simp add: empty_frame_def)
    qed
    show "0 < length h - 1 - ?n \<longrightarrow> \<not> ?ms ! (length h - 1 - ?n) \<le> 2"
    proof
      have "\<not> empty_frame (rev h ! ?n)" using n by (intro nth_length_takeWhile) simp
      moreover have "rev h ! ?n = h ! (length h - 1 - ?n)" using n by (simp add: rev_nth)
      ultimately show "\<not> ?ms ! (length h - 1 - ?n) \<le> 2" using n by (simp add: empty_frame_def)
    qed
  qed
  moreover have "int (length h - 1) = int (length h) - 1" using n by (cases h) auto
  ultimately show ?thesis by simp
qed

lemma trimmed_all_empty:
  assumes "\<forall>b\<in>set h. empty_frame b"
  shows "trimmed h = []"
proof -
  have "dropWhile empty_frame h = []" using assms by (simp only: dropWhile_eq_Nil_conv)
  then show ?thesis unfolding trimmed_def by (simp only: rev.simps dropWhile.simps)
qed

lemma trimmed_slice:
  assumes "\<not> (\<forall>b\<in>set h. empty_frame b)"
  shows "length (takeWhile empty_frame h) + length (takeWhile empty_frame (rev h)) < length h"
    and "trimmed h = slice h (length (takeWhile empty_frame h))
                       (length h - length (takeWhile empty_frame (rev h)))"
proof -
  let ?s = "length (takeWhile empty_frame h)"
  let ?n = "length (takeWhile empty_frame (rev h))"
  let ?ys = "dropWhile empty_frame h"
  have h: "h = takeWhile empty_frame h @ ?ys" by simp
  have ys: "?ys \<noteq> []" using assms by simp
  then have hd: "\<not> empty_frame (hd ?ys)" by (rule hd_dropWhile)
  have mem: "hd ?ys \<in> set (rev ?ys)" using ys by simp
  then have "takeWhile empty_frame (rev ?ys @ rev (takeWhile empty_frame h))
             = takeWhile empty_frame (rev ?ys)"
    using hd by (rule takeWhile_append1)
  moreover have "rev h = rev ?ys @ rev (takeWhile empty_frame h)"
    by (subst h) (simp only: rev_append)
  ultimately have tw: "takeWhile empty_frame (rev h) = takeWhile empty_frame (rev ?ys)" by simp
  have "\<not> (\<forall>b\<in>set (rev ?ys). empty_frame b)" using hd mem by blast
  then have "length (takeWhile empty_frame (rev ?ys)) < length (rev ?ys)"
    by (rule takeWhile_short)
  then have n: "?n < length ?ys" using tw by simp
  have len: "length ?ys = length h - ?s" by (simp add: dropWhile_eq_drop)
  show "?s + ?n < length h" using n len by arith
  have "trimmed h = rev (drop (length (takeWhile empty_frame (rev ?ys))) (rev ?ys))"
    unfolding trimmed_def by (subst dropWhile_eq_drop) simp
  also have "\<dots> = take (length ?ys - ?n) ?ys" using tw by (simp add: rev_drop)
  also have "\<dots> = slice h ?s (length h - ?n)"
  proof -
    have "length ?ys - ?n = length h - ?n - ?s" using len by arith
    then show ?thesis by (simp only: slice_def dropWhile_eq_drop)
  qed
  finally show "trimmed h = slice h ?s (length h - ?n)" .
qed

lemma trim_eq:
  "trim t = t\<lparr>start_frame :=
                (if \<forall>b\<in>set (bounds_history t). empty_frame b then 0
                 else start_frame t + int (length (takeWhile empty_frame (bounds_history t)))),
              bounds_history := trimmed (bounds_history t)\<rparr>"
proof (cases "\<forall>b\<in>set (bounds_history t). empty_frame b")
  case True
  let ?h = "bounds_history t"
  have "takeWhile empty_frame ?h = ?h" using True by (simp only: takeWhile_eq_all_conv)
  then have s: "trim_start (map (\<lambda>b. py_int (mass b)) ?h) 0 = length ?h"
    by (simp only: trim_start_takeWhile)
  have "trim_end (map (\<lambda>b. py_int (mass b)) ?h) (int (length ?h) - 1) < int (length ?h)"
    using trim_end_all_empty [OF True] by simp
  then show ?thesis using True s by (simp add: trim_def len_def trimmed_all_empty)
next
  case False
  let ?h = "bounds_history t"
  let ?s = "length (takeWhile empty_frame ?h)"
  let ?n = "length (takeWhile empty_frame (rev ?h))"
  have s: "trim_start (map (\<lambda>b. py_int (mass b)) ?h) 0 = ?s"
    by (rule trim_start_takeWhile)
  have e: "trim_end (map (\<lambda>b. py_int (mass b)) ?h) (int (length ?h) - 1) = int (length ?h - 1 - ?n)"
    using False by (rule trim_end_last_kept)
  have lt: "?s + ?n < length ?h" using False by (rule trimmed_slice(1))
  then have ge: "\<not> int (length ?h - 1 - ?n) < int ?s" by arith
  have up: "nat (int (length ?h - 1 - ?n) + 1) = length ?h - ?n" using lt by arith
  have "trim t = t\<lparr>start_frame := start_frame t + int ?s,
                     bounds_history := slice ?h ?s (length ?h - ?n)\<rparr>"
    unfolding trim_def Let_def len_def s e using ge up by (simp only: if_False)
  then show ?thesis
    using False trimmed_slice(2) [OF False] by auto
qed


lemma trim_all_empty:
  "\<forall>b\<in>set (bounds_history t). empty_frame b \<Longrightarrow>
   trim t = t\<lparr>start_frame := 0, bounds_history := []\<rparr>"
  using trim_eq [of t] by (auto simp: trimmed_all_empty)

lemma trim_some_frame:
  "\<not> (\<forall>b\<in>set (bounds_history t). empty_frame b) \<Longrightarrow>
   trim t = t\<lparr>start_frame := start_frame t + int (length (takeWhile empty_frame (bounds_history t))),
              bounds_history := trimmed (bounds_history t)\<rparr>"
  using trim_eq [of t] by auto

lemma trimmed_prefix:
  "trimmed h = take (length (dropWhile empty_frame h)
                     - length (takeWhile empty_frame (rev (dropWhile empty_frame h))))
                 (dropWhile empty_frame h)"
proof -
  let ?ys = "dropWhile empty_frame h"
  have "trimmed h = rev (drop (length (takeWhile empty_frame (rev ?ys))) (rev ?ys))"
    unfolding trimmed_def by (subst dropWhile_eq_drop) simp
  then show ?thesis by (simp add: rev_drop)
qed

lemma trimmed_hd:
  assumes "trimmed h \<noteq> []"
  shows "\<not> empty_frame (hd (trimmed h))"
proof -
  let ?ys = "dropWhile empty_frame h"
  let ?m = "length ?ys - length (takeWhile empty_frame (rev ?ys))"
  have eq: "trimmed h = take ?m ?ys" by (rule trimmed_prefix)
  with assms have "?ys \<noteq> []" and "0 < ?m" by auto
  then have "hd (take ?m ?ys) = hd ?ys" and "\<not> empty_frame (hd ?ys)"
    by (simp_all add: hd_dropWhile)
  then have "\<not> empty_frame (hd (take ?m ?ys))" by simp
  then show ?thesis unfolding eq .
qed

lemma trimmed_Nil_iff: "trimmed h = [] \<longleftrightarrow> (\<forall>b\<in>set h. empty_frame b)"
proof
  assume "\<forall>b\<in>set h. empty_frame b"
  then show "trimmed h = []" by (rule trimmed_all_empty)
next
  assume nil: "trimmed h = []"
  show "\<forall>b\<in>set h. empty_frame b"
  proof (rule ccontr)
    assume "\<not> (\<forall>b\<in>set h. empty_frame b)"
    then have "length (takeWhile empty_frame h) + length (takeWhile empty_frame (rev h)) < length h"
      and "trimmed h = slice h (length (takeWhile empty_frame h))
                         (length h - length (takeWhile empty_frame (rev h)))"
      by (rule trimmed_slice)+
    then have "length (trimmed h) > 0" by (simp add: slice_def)
    with nil show False by simp
  qed
qed

lemma trimmed_no_leading: "takeWhile empty_frame (trimmed h) = []"
  using trimmed_hd [of h] by (auto simp: takeWhile_eq_Nil_iff)

lemma trimmed_some_frame: "trimmed h \<noteq> [] \<Longrightarrow> \<not> (\<forall>b\<in>set (trimmed h). empty_frame b)"
  using trimmed_hd [of h] hd_in_set [of "trimmed h"] by blast

lemma trimmed_idem: "trimmed (trimmed h) = trimmed h"
proof -
  have a: "dropWhile empty_frame (trimmed h) = trimmed h"
    using trimmed_hd [of h] by (auto simp: dropWhile_eq_self_iff)
  have "rev (trimmed h) = dropWhile empty_frame (rev (dropWhile empty_frame h))"
    by (simp add: trimmed_def)
  then have "dropWhile empty_frame (rev (trimmed h)) = rev (trimmed h)"
    by (simp only: dropWhile_idem)
  then have "rev (dropWhile empty_frame (rev (trimmed h))) = trimmed h"
    by (simp only: rev_rev_ident)
  then show ?thesis using a by (simp add: trimmed_def)
qed

text \<open>
  C7. trim removes the leading and the trailing run of empty frames. It adds the length of
  the leading run to \<open>start_frame\<close>; when every frame is empty the history becomes empty
  and \<open>start_frame\<close> becomes 0. Otherwise the old history is the leading run, then the new
  history, then the trailing run, and the new history neither starts nor ends with an empty
  frame. No other field changes.
\<close>

theorem trim_removes_empty_runs:
  "bounds_history (trim t) = trimmed (bounds_history t)
   \<and> ((\<forall>b\<in>set (bounds_history t). empty_frame b)
        \<longrightarrow> bounds_history (trim t) = [] \<and> start_frame (trim t) = 0)
   \<and> (\<not> (\<forall>b\<in>set (bounds_history t). empty_frame b)
        \<longrightarrow> start_frame (trim t)
              = start_frame t + int (length (takeWhile empty_frame (bounds_history t)))
          \<and> bounds_history t
              = takeWhile empty_frame (bounds_history t) @ bounds_history (trim t)
                @ rev (takeWhile empty_frame (rev (bounds_history t)))
          \<and> bounds_history (trim t) \<noteq> []
          \<and> \<not> empty_frame (hd (bounds_history (trim t)))
          \<and> \<not> empty_frame (last (bounds_history (trim t))))
   \<and> id' (trim t) = id' t \<and> self_track_id (trim t) = self_track_id t
   \<and> frames_since_target_seen (trim t) = frames_since_target_seen t
   \<and> vel_x (trim t) = vel_x t \<and> vel_y (trim t) = vel_y t \<and> tag (trim t) = tag t"
proof -
  let ?h = "bounds_history t"
  let ?s = "length (takeWhile empty_frame ?h)"
  let ?n = "length (takeWhile empty_frame (rev ?h))"
  have h: "bounds_history (trim t) = trimmed ?h" by (simp add: trim_eq)
  have rest: "id' (trim t) = id' t" "self_track_id (trim t) = self_track_id t"
    "frames_since_target_seen (trim t) = frames_since_target_seen t"
    "vel_x (trim t) = vel_x t" "vel_y (trim t) = vel_y t" "tag (trim t) = tag t"
    by (simp_all add: trim_eq)
  have all: "(\<forall>b\<in>set ?h. empty_frame b) \<longrightarrow> bounds_history (trim t) = [] \<and> start_frame (trim t) = 0"
    by (auto simp: trim_all_empty)
  have some: "start_frame (trim t) = start_frame t + int ?s
          \<and> ?h = takeWhile empty_frame ?h @ bounds_history (trim t) @ rev (takeWhile empty_frame (rev ?h))
          \<and> bounds_history (trim t) \<noteq> []
          \<and> \<not> empty_frame (hd (bounds_history (trim t)))
          \<and> \<not> empty_frame (last (bounds_history (trim t)))"
    if ne: "\<not> (\<forall>b\<in>set ?h. empty_frame b)"
  proof -
    have lt: "?s + ?n < length ?h" and sl: "trimmed ?h = slice ?h ?s (length ?h - ?n)"
      using ne by (rule trimmed_slice)+
    have nonnil: "trimmed ?h \<noteq> []" using ne by (simp add: trimmed_Nil_iff)
    have "rev (takeWhile empty_frame (rev ?h)) = rev (take ?n (rev ?h))"
      using takeWhile_eq_take [of empty_frame "rev ?h"] by simp
    also have "\<dots> = drop (length ?h - ?n) ?h" by (simp add: rev_take)
    finally have tail: "rev (takeWhile empty_frame (rev ?h)) = drop (length ?h - ?n) ?h" .
    have "drop ?s ?h = take (length ?h - ?n - ?s) (drop ?s ?h) @ drop (length ?h - ?n - ?s) (drop ?s ?h)"
      by (simp only: append_take_drop_id)
    moreover have "length ?h - ?n - ?s + ?s = length ?h - ?n" using lt by arith
    ultimately have "drop ?s ?h = trimmed ?h @ drop (length ?h - ?n) ?h"
      by (simp add: sl slice_def)
    moreover have "?h = take ?s ?h @ drop ?s ?h" by simp
    moreover have "take ?s ?h = takeWhile empty_frame ?h"
      using takeWhile_eq_take [of empty_frame ?h] by simp
    ultimately have split: "?h = takeWhile empty_frame ?h @ trimmed ?h @ rev (takeWhile empty_frame (rev ?h))"
      using tail by simp
    have "rev (trimmed ?h) = dropWhile empty_frame (rev (dropWhile empty_frame ?h))"
      by (simp add: trimmed_def)
    moreover have "rev (trimmed ?h) \<noteq> []" using nonnil by simp
    ultimately have "\<not> empty_frame (hd (rev (trimmed ?h)))"
      using hd_dropWhile [of empty_frame "rev (dropWhile empty_frame ?h)"] by simp
    then have lst: "\<not> empty_frame (last (trimmed ?h))" using nonnil by (simp add: hd_rev)
    have a1: "start_frame (trim t) = start_frame t + int ?s"
      by (simp add: trim_some_frame [OF ne])
    have a2: "?h = takeWhile empty_frame ?h @ bounds_history (trim t)
                   @ rev (takeWhile empty_frame (rev ?h))"
      unfolding h by (rule split)
    have a3: "bounds_history (trim t) \<noteq> []" unfolding h by (rule nonnil)
    have a4: "\<not> empty_frame (hd (bounds_history (trim t)))"
      unfolding h using nonnil by (rule trimmed_hd)
    have a5: "\<not> empty_frame (last (bounds_history (trim t)))" unfolding h by (rule lst)
    from a1 a2 a3 a4 a5 show ?thesis by (intro conjI)
  qed
  from some have some': "\<not> (\<forall>b\<in>set ?h. empty_frame b) \<longrightarrow>
      start_frame (trim t) = start_frame t + int ?s
      \<and> ?h = takeWhile empty_frame ?h @ bounds_history (trim t) @ rev (takeWhile empty_frame (rev ?h))
      \<and> bounds_history (trim t) \<noteq> []
      \<and> \<not> empty_frame (hd (bounds_history (trim t)))
      \<and> \<not> empty_frame (last (bounds_history (trim t)))"
    by (rule impI)
  from h all some' rest show ?thesis by (intro conjI)
qed

lemma empty_frame_region_at [simp]: "empty_frame (region_at mx 1)" "\<not> empty_frame (region_at mx 50)"
  by (simp_all add: empty_frame_def region_at_def py_int_def)

lemma blinking_track_fields: "bounds_history blinking_track = [region_at 0 1, region_at 0 1, region_at 0 50, region_at 0 50, region_at 0 1]"
  "start_frame blinking_track = 7"
  by (simp_all add: blinking_track_def)

lemma new_track_history: "bounds_history new_track = []"
  by (simp add: new_track_def Track_init_def)

lemma blinking_track_trimmed: "trimmed [region_at 0 1, region_at 0 1, region_at 0 50, region_at 0 50, region_at 0 1] = [region_at 0 50, region_at 0 50]"
  by (simp add: trimmed_def)


theorem trim_removes_empty_runs_witness:
  "bounds_history (trim blinking_track) = [region_at 0 50, region_at 0 50]
   \<and> start_frame (trim blinking_track) = 9
   \<and> bounds_history (trim new_track) = [] \<and> start_frame (trim new_track) = 0"
proof -
  note some = trim_removes_empty_runs [of blinking_track]
  note none = trim_removes_empty_runs [of new_track]
  have ne: "\<not> (\<forall>b\<in>set (bounds_history blinking_track). empty_frame b)"
    by (simp add: blinking_track_fields)
  have all: "\<forall>b\<in>set (bounds_history new_track). empty_frame b"
    by (simp add: new_track_history)
  from some have "bounds_history (trim blinking_track) = trimmed (bounds_history blinking_track)"
    by (rule conjunct1)
  then have h: "bounds_history (trim blinking_track) = [region_at 0 50, region_at 0 50]"
    by (simp add: blinking_track_fields blinking_track_trimmed)
  from some ne have "start_frame (trim blinking_track)
      = start_frame blinking_track + int (length (takeWhile empty_frame (bounds_history blinking_track)))"
    by blast
  then have sf: "start_frame (trim blinking_track) = 9" by (simp add: blinking_track_fields)
  from none all have "bounds_history (trim new_track) = [] \<and> start_frame (trim new_track) = 0"
    by blast
  with h sf show ?thesis by (intro conjI) simp_all
qed

text \<open>C8. trim is idempotent: a second trim changes nothing.\<close>

theorem trim_idempotent: "trim (trim t) = trim t"
proof (cases "trimmed (bounds_history t) = []")
  case True
  then have "\<forall>b\<in>set (bounds_history t). empty_frame b" by (simp only: trimmed_Nil_iff)
  then have "trim t = t\<lparr>start_frame := 0, bounds_history := []\<rparr>"
    by (rule trim_all_empty)
  then show ?thesis by (simp add: trim_all_empty)
next
  case False
  let ?t' = "trim t"
  have h: "bounds_history ?t' = trimmed (bounds_history t)" by (simp add: trim_eq)
  then have "\<not> (\<forall>b\<in>set (bounds_history ?t'). empty_frame b)"
    using trimmed_some_frame [OF False] by simp
  then have "trim ?t' = ?t'\<lparr>start_frame := start_frame ?t' + int (length (takeWhile empty_frame (bounds_history ?t'))),
                           bounds_history := trimmed (bounds_history ?t')\<rparr>"
    by (rule trim_some_frame)
  then show ?thesis by (simp add: h trimmed_no_leading trimmed_idem)
qed

subsection \<open>Velocity and add_blank_frame\<close>

lemma set_bounds_snoc: "set_bounds f (h @ [r]) = h @ [f r]"
  by (simp add: set_bounds_def)

lemma add_blank_frame_eq:
  "bounds_history t \<noteq> [] \<Longrightarrow>
   add_blank_frame t =
     Inr (t\<lparr>bounds_history :=
              bounds_history t @
                [(last (bounds_history t))
                   \<lparr>mass := 0, pixel_variance := 0,
                    frame_index := frame_index (last (bounds_history t)) + 1\<rparr>],
            vel_x := 0, vel_y := 0\<rparr>)"
  by (simp add: add_blank_frame_def bounds_def set_bounds_snoc copy_def)

lemma velocity_current_add_frame: "velocity_current (add_frame t b)"
  by (simp add: velocity_current_def add_frame_def Let_def)

lemma velocity_current_add_blank_frame:
  assumes "bounds_history t \<noteq> []"
  shows "\<exists>t'. add_blank_frame t = Inr t' \<and> velocity_current t'"
proof -
  from assms have "length (bounds_history t) - 1 < length (bounds_history t)"
    by (cases "bounds_history t") auto
  then show ?thesis using assms
    by (simp add: add_blank_frame_eq velocity_current_def Let_def nth_append last_conv_nth)
qed

lemma smooth_keeps_velocity:
  assumes "length (bounds_history t) \<noteq> 1"
  shows "\<exists>t'. smooth Region crop frame_bounds t = Inr t' \<and> vel_x t' = vel_x t \<and> vel_y t' = vel_y t"
  using assms by (cases "bounds_history t") (auto simp add: smooth_def)

lemma moving_track_fields:
  "bounds_history moving_track = [region_at 0 50, region_at 5 1]"
  "vel_x moving_track = 5" "vel_y moving_track = 0" "start_frame moving_track = 0"
  "frames_since_target_seen moving_track = 0"
  by (simp_all add: moving_track_def new_track_def Track_init_def add_frame_def copy_def region_at_def)

text \<open>
  C3 (as stated, refuted). After two frames with midpoints 0 and 5, the second of mass 1,
  the velocity is 5. trim removes the second frame and keeps the velocity: the history has
  one entry and the velocity is still 5, not 0.
\<close>

theorem velocity_stale_after_trim:
  "length (bounds_history stale_track) = 1 \<and> vel_x stale_track = 5 \<and> vel_y stale_track = 0
   \<and> \<not> velocity_current stale_track"
proof -
  have ne: "\<not> (\<forall>b\<in>set (bounds_history moving_track). empty_frame b)"
    by (simp add: moving_track_fields)
  have "trimmed (bounds_history moving_track) = [region_at 0 50]"
    by (simp add: moving_track_fields trimmed_def)
  then have "bounds_history stale_track = [region_at 0 50]" "vel_x stale_track = 5" "vel_y stale_track = 0"
    by (simp_all add: stale_track_def trim_some_frame [OF ne] moving_track_fields)
  then show ?thesis by (simp add: velocity_current_def)
qed

text \<open>
  C3 (amended). After \<open>add_frame\<close>, and after \<open>add_blank_frame\<close> on a non-empty
  history, the velocity is the difference of the midpoints of the last two entries, or 0
  when there are fewer than two. \<open>smooth\<close> (where it returns) and \<open>trim\<close> leave
  \<open>vel_x\<close> and \<open>vel_y\<close> as they were: they do not recompute the velocity.
\<close>

theorem velocity_recomputed_by_add_only:
  "velocity_current (add_frame t b)
   \<and> (bounds_history t \<noteq> [] \<longrightarrow> (\<exists>t'. add_blank_frame t = Inr t' \<and> velocity_current t'))
   \<and> (length (bounds_history t) \<noteq> 1 \<longrightarrow>
        (\<exists>t'. smooth Region crop frame_bounds t = Inr t' \<and> vel_x t' = vel_x t \<and> vel_y t' = vel_y t))
   \<and> vel_x (trim t) = vel_x t \<and> vel_y (trim t) = vel_y t"
  using velocity_current_add_frame [of t b] velocity_current_add_blank_frame [of t]
    smooth_keeps_velocity [of t Region crop frame_bounds]
  by (simp add: trim_eq)

theorem velocity_recomputed_by_add_only_witness:
  "bounds_history moving_track \<noteq> [] \<and> length (bounds_history moving_track) \<noteq> 1
   \<and> velocity_current (add_frame moving_track (region_at 7 50))
   \<and> vel_x (add_frame moving_track (region_at 7 50)) = 2
   \<and> (\<exists>t'. add_blank_frame moving_track = Inr t' \<and> velocity_current t' \<and> vel_x t' = 0)
   \<and> (\<exists>t'. smooth (\<lambda>x y w h. region_at (real_of_int x) 0) (\<lambda>f r. r) () moving_track = Inr t'
            \<and> vel_x t' = 5)
   \<and> vel_x (trim moving_track) = 5"
  using velocity_recomputed_by_add_only
          [of moving_track "region_at 7 50" "\<lambda>x y w h. region_at (real_of_int x) 0" "\<lambda>f r. r" "()"]
  by (auto simp add: moving_track_fields add_blank_frame_eq add_frame_def copy_def region_at_def)

text \<open>
  C9. On a non-empty history \<open>add_blank_frame\<close> returns, and appends one entry: the
  previous last entry with mass 0, pixel variance 0 and the frame index one greater. The
  velocity becomes 0. The counter \<open>frames_since_target_seen\<close>, \<open>start_frame\<close>, the id,
  the tag and the earlier entries are unchanged.
\<close>

theorem add_blank_frame_effect:
  "bounds_history t \<noteq> [] \<Longrightarrow>
   (\<exists>t'. add_blank_frame t = Inr t'
      \<and> bounds_history t' =
          bounds_history t @
            [(last (bounds_history t))
               \<lparr>mass := 0, pixel_variance := 0,
                frame_index := frame_index (last (bounds_history t)) + 1\<rparr>]
      \<and> vel_x t' = 0 \<and> vel_y t' = 0
      \<and> frames_since_target_seen t' = frames_since_target_seen t
      \<and> start_frame t' = start_frame t \<and> id' t' = id' t \<and> tag t' = tag t
      \<and> self_track_id t' = self_track_id t
      \<and> take (length (bounds_history t)) (bounds_history t') = bounds_history t)"
  by (simp add: add_blank_frame_eq)

theorem add_blank_frame_effect_witness:
  "bounds_history moving_track \<noteq> []
   \<and> (\<exists>t'. add_blank_frame moving_track = Inr t'
        \<and> bounds_history t' = [region_at 0 50, region_at 5 1, (region_at 5 0)\<lparr>frame_index := 1\<rparr>]
        \<and> vel_x t' = 0 \<and> vel_y t' = 0 \<and> frames_since_target_seen t' = 0)"
  using add_blank_frame_effect [of moving_track]
  by (auto simp add: moving_track_fields region_at_def)

subsection \<open>get_track_region_score\<close>

lemma still_track_fields:
  "bounds_history still_track = [half_pixel_region]" "vel_x still_track = 0" "vel_y still_track = 0"
  by (simp_all add: still_track_def add_frame_def new_track_def Track_init_def copy_def)

lemma py_int_of_int [simp]: "py_int (real_of_int k) = k"
  by (simp add: py_int_def)

lemma py_int_numeral [simp]: "py_int 0 = 0" "py_int 1 = 1" "py_int (numeral n) = numeral n"
  by (simp_all add: py_int_def)

lemma py_int_half [simp]: "py_int (1 / 2) = 0"
  by (simp add: py_int_def)

text \<open>
  C5 (as stated, refuted). The last bounds have the midpoint \<open>(1/2, 1)\<close> and the
  velocity is 0, so the expected point of the claim is \<open>(1/2, 1)\<close>, and a region with
  that midpoint is at distance 0 from it. The code truncates the expected point to
  \<open>(0, 1)\<close> and returns the distance \<open>1/2\<close>.
\<close>

theorem region_score_truncates_expected_point:
  "get_track_region_score still_track half_pixel_region = Inr (1 / 2, 0)
   \<and> spec_distance still_track half_pixel_region = 0"
proof -
  have "sqrt ((1 / 2)\<^sup>2) = 1 / 2" by simp
  then show ?thesis
    by (simp add: get_track_region_score_def bounds_def still_track_fields spec_distance_def
        half_pixel_region_def)
qed

text \<open>
  C5 (amended). On a non-empty history whose last area is not \<open>- 50\<close>, the result is
  the pair of the distance from the region's midpoint to the expected point, each
  coordinate of which is the last midpoint plus the velocity truncated towards zero to an
  integer, and of \<open>abs (region.area - current.area) / (current.area + 50) * 100\<close>. When
  midpoint plus velocity is integral in both coordinates, the distance is the untruncated one.
\<close>

theorem region_score_value:
  assumes "bounds_history t \<noteq> []" and "area (last (bounds_history t)) + 50 \<noteq> 0"
  shows "get_track_region_score t region =
           Inr (sqrt ((mid_x region - real_of_int (py_int (mid_x (last (bounds_history t)) + vel_x t)))\<^sup>2
                      + (mid_y region - real_of_int (py_int (mid_y (last (bounds_history t)) + vel_y t)))\<^sup>2),
                \<bar>area region - area (last (bounds_history t))\<bar>
                  / (area (last (bounds_history t)) + 50) * 100)
         \<and> (mid_x (last (bounds_history t)) + vel_x t \<in> \<int>
              \<and> mid_y (last (bounds_history t)) + vel_y t \<in> \<int>
            \<longrightarrow> fst (projr (get_track_region_score t region)) = spec_distance t region)"
proof -
  have a: "get_track_region_score t region =
           Inr (sqrt ((mid_x region - real_of_int (py_int (mid_x (last (bounds_history t)) + vel_x t)))\<^sup>2
                      + (mid_y region - real_of_int (py_int (mid_y (last (bounds_history t)) + vel_y t)))\<^sup>2),
                \<bar>area region - area (last (bounds_history t))\<bar>
                  / (area (last (bounds_history t)) + 50) * 100)"
    using assms by (simp add: get_track_region_score_def bounds_def Let_def)
  have "fst (projr (get_track_region_score t region)) = spec_distance t region"
    if "mid_x (last (bounds_history t)) + vel_x t \<in> \<int>"
      and "mid_y (last (bounds_history t)) + vel_y t \<in> \<int>"
  proof -
    from that obtain k l where "mid_x (last (bounds_history t)) + vel_x t = real_of_int k"
      "mid_y (last (bounds_history t)) + vel_y t = real_of_int l"
      by (auto elim!: Ints_cases)
    then show ?thesis by (simp add: a spec_distance_def)
  qed
  with a show ?thesis by blast
qed

theorem region_score_value_witness:
  "get_track_region_score moving_track (region_at 9 50) = Inr (1, 0)
   \<and> spec_distance moving_track (region_at 9 50) = 1"
  using region_score_value [of moving_track "region_at 9 50"]
  by (simp add: moving_track_fields region_at_def spec_distance_def)

subsection \<open>get_overlap_ratio\<close>

lemma overlap_loop_counts:
  assumes "\<forall>pos\<in>set ps. in_both t other_track pos \<longrightarrow> area (bounds_history t ! nat (pos - start_frame t)) \<noteq> 0"
  shows "overlap_loop overlap_area t other_track threshold ps n
         = Inr (n + length (filter (counted overlap_area t other_track threshold) ps))"
  using assms
proof (induction ps arbitrary: n)
  case Nil
  then show ?case by simp
next
  case (Cons pos ps)
  then have IH: "\<And>m. overlap_loop overlap_area t other_track threshold ps m
         = Inr (m + length (filter (counted overlap_area t other_track threshold) ps))"
    by simp
  show ?case
  proof (cases "in_both t other_track pos")
    case True
    then have nz: "area (bounds_history t ! nat (pos - start_frame t)) \<noteq> 0"
      using Cons.prems by simp
    from True have idx: "pos - start_frame t \<ge> 0" "pos - start_frame other_track \<ge> 0"
      "pos - start_frame t < int (len t)" "pos - start_frame other_track < int (len other_track)"
      by (simp_all add: in_both_def)
    have c: "counted overlap_area t other_track threshold pos \<longleftrightarrow>
        threshold \<le> overlap_area (bounds_history t ! nat (pos - start_frame t))
             (bounds_history other_track ! nat (pos - start_frame other_track))
           / area (bounds_history t ! nat (pos - start_frame t))"
      using True by (simp add: counted_def)
    show ?thesis
      using nz idx by (simp add: IH Let_def c del: diff_ge_0_iff_ge)
  next
    case False
    then have c: "\<not> counted overlap_area t other_track threshold pos"
      by (simp add: counted_def)
    from False have "\<not> (pos - start_frame t \<ge> 0 \<and> pos - start_frame other_track \<ge> 0
      \<and> pos - start_frame t < int (len t) \<and> pos - start_frame other_track < int (len other_track))"
      by (simp add: in_both_def)
    then show ?thesis
      using c by (simp add: IH Let_def del: diff_ge_0_iff_ge)
  qed
qed

lemma overlap_loop_zero_area:
  assumes "in_both t other_track pos" and "area (bounds_history t ! nat (pos - start_frame t)) = 0"
  shows "overlap_loop overlap_area t other_track threshold (pos # ps) n = Inl ZeroDivisionError"
  using assms by (simp add: in_both_def Let_def)

lemma counted_card:
  "length (filter (counted overlap_area t other_track threshold)
      [max (start_frame t) (start_frame other_track) ..
       min (start_frame t + int (len t)) (start_frame other_track + int (len other_track))])
   = count_overlapped overlap_area t other_track threshold"
proof -
  let ?lo = "max (start_frame t) (start_frame other_track)"
  let ?hi = "min (start_frame t + int (len t)) (start_frame other_track + int (len other_track))"
  let ?C = "counted overlap_area t other_track threshold"
  let ?F = "frame_overlaps overlap_area t other_track threshold"
  let ?f = "\<lambda>i. start_frame t + int i"
  have sub: "{pos. ?C pos} \<subseteq> {?lo .. ?hi}"
    by (auto simp add: counted_def in_both_def)
  have "length (filter ?C [?lo .. ?hi]) = card ({pos. ?C pos} \<inter> set [?lo .. ?hi])"
    by (rule distinct_length_filter) simp
  also have "{pos. ?C pos} \<inter> set [?lo .. ?hi] = {pos. ?C pos}"
    using sub by auto
  also have "{pos. ?C pos} = ?f ` {i. i < len t \<and> ?F i}"
  proof (rule set_eqI, rule iffI)
    fix pos assume "pos \<in> {pos. ?C pos}"
    then have c: "?C pos" by simp
    then have "nat (pos - start_frame t) < len t" "?f (nat (pos - start_frame t)) = pos"
      by (auto simp add: counted_def in_both_def)
    moreover have "?F (nat (pos - start_frame t))"
      using c by (simp add: counted_def in_both_def frame_overlaps_def shared_frame_def)
    ultimately show "pos \<in> ?f ` {i. i < len t \<and> ?F i}"
      by (intro image_eqI [where x = "nat (pos - start_frame t)"]) simp_all
  next
    fix pos assume "pos \<in> ?f ` {i. i < len t \<and> ?F i}"
    then obtain i where i: "i < len t" "?F i" "pos = ?f i" by auto
    then have "?C pos"
      by (simp add: counted_def in_both_def frame_overlaps_def shared_frame_def)
    then show "pos \<in> {pos. ?C pos}" by simp
  qed
  also have "card (?f ` {i. i < len t \<and> ?F i}) = card {i. i < len t \<and> ?F i}"
    by (rule card_image) (simp add: inj_on_def)
  also have "{i. i < len t \<and> ?F i} = {i. ?F i} \<inter> set [0 ..< len t]" by auto
  also have "card \<dots> = length (filter ?F [0 ..< len t])"
    by (rule distinct_length_filter [symmetric]) simp
  finally show ?thesis by (simp add: count_overlapped_def)
qed

lemma no_shared_frame_if_disjoint:
  "ranges_disjoint t other_track \<Longrightarrow> i < len t \<Longrightarrow> \<not> shared_frame t other_track i"
  by (auto simp add: ranges_disjoint_def shared_frame_def)

lemma count_overlapped_le: "count_overlapped overlap_area t other_track threshold \<le> len t"
  using length_filter_le [of "frame_overlaps overlap_area t other_track threshold" "[0 ..< len t]"]
  by (simp add: count_overlapped_def)

lemma count_overlapped_no_shared:
  assumes "\<forall>i<len t. \<not> shared_frame t other_track i"
  shows "count_overlapped overlap_area t other_track threshold = 0"
  using assms by (simp add: count_overlapped_def frame_overlaps_def)

lemma get_overlap_ratio_eq:
  assumes ne: "len t \<noteq> 0" "len other_track \<noteq> 0"
    and nz: "\<forall>i<len t. shared_frame t other_track i \<longrightarrow> area (bounds_history t ! i) \<noteq> 0"
  shows "get_overlap_ratio overlap_area t other_track threshold
         = Inr (real (count_overlapped overlap_area t other_track threshold) / real (len t))"
proof -
  let ?lo = "max (start_frame t) (start_frame other_track)"
  let ?hi = "min (start_frame t + int (len t)) (start_frame other_track + int (len other_track))"
  have "\<forall>pos\<in>set [?lo .. ?hi]. in_both t other_track pos
          \<longrightarrow> area (bounds_history t ! nat (pos - start_frame t)) \<noteq> 0"
  proof (intro ballI impI)
    fix pos assume b: "in_both t other_track pos"
    then have "nat (pos - start_frame t) < len t"
      and "shared_frame t other_track (nat (pos - start_frame t))"
      by (auto simp add: in_both_def shared_frame_def)
    with nz show "area (bounds_history t ! nat (pos - start_frame t)) \<noteq> 0" by blast
  qed
  then have "overlap_loop overlap_area t other_track threshold [?lo .. ?hi] 0
        = Inr (0 + length (filter (counted overlap_area t other_track threshold) [?lo .. ?hi]))"
    by (rule overlap_loop_counts)
  then have "overlap_loop overlap_area t other_track threshold [?lo .. ?hi] 0
        = Inr (count_overlapped overlap_area t other_track threshold)"
    by (simp only: counted_card add_0)
  then show ?thesis using ne by (simp add: get_overlap_ratio_def Let_def)
qed

text \<open>
  C6 (as stated, refuted). A track of one region of width 0, hence of area 0, compared with
  itself: the only shared frame divides by the area, and the call raises ZeroDivisionError
  instead of returning a ratio.
\<close>

theorem overlap_ratio_zero_area_fails:
  "get_overlap_ratio rectangle_overlap_area flat_track flat_track (1 / 20) = Inl ZeroDivisionError"
proof -
  have fields: "len flat_track = 1" "start_frame flat_track = 0"
    "bounds_history flat_track = [flat_region]"
    by (simp_all add: len_def flat_track_def add_frame_def new_track_def Track_init_def copy_def)
  have "overlap_loop rectangle_overlap_area flat_track flat_track (1 / 20) (0 # [1 .. 1]) 0
        = Inl ZeroDivisionError"
    by (rule overlap_loop_zero_area) (simp_all add: in_both_def fields flat_region_def)
  moreover have "[0 .. 1 :: int] = 0 # [1 .. 1]" by (simp add: upto_rec1)
  ultimately show ?thesis by (simp add: get_overlap_ratio_def fields)
qed

text \<open>
  C6 (amended). When either history is empty or the frame ranges do not intersect, the
  result is 0. When every shared frame of the calling track has a non-zero area, the call
  returns the number of shared frames whose overlap area over the track's own area reaches
  the threshold, divided by the length of the calling track, and the ratio lies in [0, 1].
\<close>

theorem overlap_ratio_value:
  "(len t = 0 \<or> len other_track = 0 \<or> ranges_disjoint t other_track
      \<longrightarrow> get_overlap_ratio overlap_area t other_track threshold = Inr 0)
   \<and> ((\<forall>i<len t. shared_frame t other_track i \<longrightarrow> area (bounds_history t ! i) \<noteq> 0)
      \<longrightarrow> (\<exists>r. get_overlap_ratio overlap_area t other_track threshold = Inr r
             \<and> 0 \<le> r \<and> r \<le> 1
             \<and> (len t \<noteq> 0 \<longrightarrow>
                  r = real (count_overlapped overlap_area t other_track threshold) / real (len t))))"
proof (intro conjI impI)
  assume a: "len t = 0 \<or> len other_track = 0 \<or> ranges_disjoint t other_track"
  show "get_overlap_ratio overlap_area t other_track threshold = Inr 0"
  proof (cases "len t = 0 \<or> len other_track = 0")
    case True
    then show ?thesis by (auto simp add: get_overlap_ratio_def)
  next
    case False
    with a have "ranges_disjoint t other_track" by blast
    then have none: "\<forall>i<len t. \<not> shared_frame t other_track i"
      by (simp add: no_shared_frame_if_disjoint)
    then have "get_overlap_ratio overlap_area t other_track threshold
         = Inr (real (count_overlapped overlap_area t other_track threshold) / real (len t))"
      using False by (intro get_overlap_ratio_eq) simp_all
    then show ?thesis using none by (simp add: count_overlapped_no_shared)
  qed
next
  assume nz: "\<forall>i<len t. shared_frame t other_track i \<longrightarrow> area (bounds_history t ! i) \<noteq> 0"
  let ?c = "count_overlapped overlap_area t other_track threshold"
  show "\<exists>r. get_overlap_ratio overlap_area t other_track threshold = Inr r
             \<and> 0 \<le> r \<and> r \<le> 1 \<and> (len t \<noteq> 0 \<longrightarrow> r = real ?c / real (len t))"
  proof (cases "len t = 0 \<or> len other_track = 0")
    case True
    then have "get_overlap_ratio overlap_area t other_track threshold = Inr 0"
      by (auto simp add: get_overlap_ratio_def)
    moreover have "?c = 0" if "len t \<noteq> 0"
    proof -
      from that True have "len other_track = 0" by simp
      then have "\<forall>i<len t. \<not> shared_frame t other_track i" by (simp add: shared_frame_def)
      then show ?thesis by (rule count_overlapped_no_shared)
    qed
    ultimately show ?thesis by auto
  next
    case False
    then have "get_overlap_ratio overlap_area t other_track threshold = Inr (real ?c / real (len t))"
      using nz by (intro get_overlap_ratio_eq) simp_all
    moreover have "real ?c / real (len t) \<le> 1"
      using count_overlapped_le [of overlap_area t other_track threshold] False
      by (simp add: divide_le_eq_1)
    ultimately show ?thesis by simp
  qed
qed

lemma track_AB_fields:
  "len track_A = 5" "len track_B = 5" "start_frame track_A = 0" "start_frame track_B = 2"
  by (simp_all add: track_A_def track_B_def len_def new_track_def Track_init_def)

lemma track_A_nth: "i < 5 \<Longrightarrow> bounds_history track_A ! i = region_at 0 50"
  by (simp add: track_A_def nth_Cons' )

lemma track_B_nth: "i < 5 \<Longrightarrow> bounds_history track_B ! i = region_at 0 50"
  by (simp add: track_B_def nth_Cons')

lemma region_at_overlap: "rectangle_overlap_area (region_at 0 50) (region_at 0 50) / area (region_at 0 50) = 1"
  by (simp add: rectangle_overlap_area_def region_at_def)

lemma count_overlapped_AB: "count_overlapped rectangle_overlap_area track_A track_B (1 / 20) = 3"
proof -
  have f: "frame_overlaps rectangle_overlap_area track_A track_B (1 / 20) i \<longleftrightarrow> 2 \<le> i"
    if "i < 5" for i
    using that by (auto simp add: frame_overlaps_def shared_frame_def track_AB_fields track_A_nth
        track_B_nth region_at_overlap)
  have e: "[0 ..< 5] = [0, 1, 2, 3, 4 :: nat]" by (simp add: upt_rec)
  show ?thesis by (simp add: count_overlapped_def track_AB_fields e f)
qed

theorem overlap_ratio_value_witness:
  "get_overlap_ratio rectangle_overlap_area track_A track_B (1 / 20) = Inr (3 / 5)
   \<and> get_overlap_ratio rectangle_overlap_area track_A new_track (1 / 20) = Inr 0"
proof -
  note v = overlap_ratio_value [of track_A track_B rectangle_overlap_area "1 / 20"]
  note z = overlap_ratio_value [of track_A new_track rectangle_overlap_area "1 / 20"]
  have "\<forall>i<len track_A. shared_frame track_A track_B i \<longrightarrow> area (bounds_history track_A ! i) \<noteq> 0"
    by (simp add: track_AB_fields track_A_nth region_at_def)
  with v obtain r where r: "get_overlap_ratio rectangle_overlap_area track_A track_B (1 / 20) = Inr r"
    "len track_A \<noteq> 0 \<longrightarrow> r = real (count_overlapped rectangle_overlap_area track_A track_B (1 / 20)) / real (len track_A)"
    by blast
  then have "r = 3 / 5" by (simp add: count_overlapped_AB track_AB_fields)
  moreover have "len new_track = 0" by (simp add: len_def new_track_def Track_init_def)
  then have "get_overlap_ratio rectangle_overlap_area track_A new_track (1 / 20) = Inr 0"
    using z by blast
  ultimately show ?thesis using r(1) by simp
qed

subsection \<open>get_stats\<close>

lemma zip_map_same: "zip (map f h) (map g h) = map (\<lambda>b. (f b, g b)) h"
  by (induction h) auto

lemma velocities_nth:
  assumes "i < length xs - 1"
  shows "map (\<lambda>(cur, prev). cur - prev) (zip (tl xs) (butlast xs)) ! i = xs ! (i + 1) - xs ! i"
  using assms by (simp add: nth_tl nth_butlast)

lemma movement_eq:
  "sum_list (map (\<lambda>(vx, vy). sqrt (vx\<^sup>2 + vy\<^sup>2))
      (zip (map (\<lambda>(cur, prev). cur - prev) (zip (tl (map mid_x h)) (butlast (map mid_x h))))
           (map (\<lambda>(cur, prev). cur - prev) (zip (tl (map mid_y h)) (butlast (map mid_y h))))))
   = spec_movement h"
proof -
  let ?vx = "map (\<lambda>(cur, prev). cur - prev) (zip (tl (map mid_x h)) (butlast (map mid_x h)))"
  let ?vy = "map (\<lambda>(cur, prev). cur - prev) (zip (tl (map mid_y h)) (butlast (map mid_y h)))"
  have "map (\<lambda>(vx, vy). sqrt (vx\<^sup>2 + vy\<^sup>2)) (zip ?vx ?vy)
        = map (\<lambda>i. mid_distance (h ! (i + 1)) (h ! i)) [0 ..< length h - 1]"
  proof (rule nth_equalityI)
    show "length (map (\<lambda>(vx, vy). sqrt (vx\<^sup>2 + vy\<^sup>2)) (zip ?vx ?vy))
          = length (map (\<lambda>i. mid_distance (h ! (i + 1)) (h ! i)) [0 ..< length h - 1])"
      by simp
  next
    fix i assume "i < length (map (\<lambda>(vx, vy). sqrt (vx\<^sup>2 + vy\<^sup>2)) (zip ?vx ?vy))"
    then have i: "i < length h - 1" by simp
    then have "?vx ! i = mid_x (h ! (i + 1)) - mid_x (h ! i)"
      and "?vy ! i = mid_y (h ! (i + 1)) - mid_y (h ! i)"
      using velocities_nth [of i "map mid_x h"] velocities_nth [of i "map mid_y h"] by simp_all
    with i show "map (\<lambda>(vx, vy). sqrt (vx\<^sup>2 + vy\<^sup>2)) (zip ?vx ?vy) ! i
          = map (\<lambda>i. mid_distance (h ! (i + 1)) (h ! i)) [0 ..< length h - 1] ! i"
      by (simp add: mid_distance_def)
  qed
  then show ?thesis by (simp only: spec_movement_def)
qed

lemma py_max_Max: "vs \<noteq> [] \<Longrightarrow> py_max vs = Max (set vs)"
proof (cases vs)
  case Nil
  assume "vs \<noteq> []"
  with Nil show ?thesis by simp
next
  case (Cons v rest)
  have "Max (set (v # rest)) = fold max rest v" by (rule Max.set_eq_fold)
  then show ?thesis using Cons by (simp only: py_max_def list.sel)
qed

lemma max_offset_eq:
  assumes "h \<noteq> []"
  shows "py_max (map (\<lambda>(dx, dy). sqrt (dx\<^sup>2 + dy\<^sup>2))
            (zip (map (\<lambda>v. map mid_x h ! 0 - v) (map mid_x h))
                 (map (\<lambda>v. map mid_y h ! 0 - v) (map mid_y h))))
         = spec_max_offset h"
proof -
  have z: "map mid_x h ! 0 = mid_x (h ! 0)" "map mid_y h ! 0 = mid_y (h ! 0)"
    using assms by simp_all
  have "map (\<lambda>(dx, dy). sqrt (dx\<^sup>2 + dy\<^sup>2))
            (zip (map (\<lambda>v. map mid_x h ! 0 - v) (map mid_x h))
                 (map (\<lambda>v. map mid_y h ! 0 - v) (map mid_y h)))
        = map (\<lambda>b. mid_distance b (h ! 0)) h"
    by (simp add: z zip_map_same mid_distance_def power2_commute [of "mid_x (h ! 0)"]
        power2_commute [of "mid_y (h ! 0)"])
  then show ?thesis using assms by (simp add: py_max_Max spec_max_offset_def)
qed

lemma spec_movement_nonneg: "0 \<le> spec_movement h"
  unfolding spec_movement_def by (rule sum_list_nonneg) (auto simp add: mid_distance_def)

lemma spec_max_offset_nonneg:
  assumes "h \<noteq> []"
  shows "0 \<le> spec_max_offset h"
proof -
  have "Max ((\<lambda>b. mid_distance b (h ! 0)) ` set h) \<in> (\<lambda>b. mid_distance b (h ! 0)) ` set h"
    using assms by (intro Max_in) simp_all
  then show ?thesis by (auto simp add: spec_max_offset_def mid_distance_def)
qed

lemma get_stats_eq:
  assumes "2 \<le> length (bounds_history t)" and "0 \<le> np_mean (map pixel_variance (bounds_history t))"
  shows "get_stats t = Inr (spec_stats (bounds_history t))"
proof -
  have ne: "bounds_history t \<noteq> []" using assms(1) by auto
  have m: "map real_of_int (map (\<lambda>bound. py_int (mass bound)) (bounds_history t))
           = int_masses (bounds_history t)"
    by (simp add: int_masses_def)
  show ?thesis
    using assms
    by (simp add: get_stats_def len_def Let_def movement_eq max_offset_eq [OF ne] m spec_stats_def
        del: map_map)
qed

lemma score_bounds:
  assumes "h \<noteq> []" and "0 \<le> np_mean (map pixel_variance h)"
  shows "0 \<le> score (spec_stats h)" and "score (spec_stats h) \<le> 200"
proof -
  have "0 \<le> sqrt (spec_movement h) + spec_max_offset h"
    using spec_movement_nonneg [of h] spec_max_offset_nonneg [OF assms(1)] by simp
  moreover have "0 \<le> sqrt (np_mean (map pixel_variance h)) * 25" using assms(2) by simp
  ultimately show "0 \<le> score (spec_stats h)" by (simp add: spec_stats_def)
  show "score (spec_stats h) \<le> 200" by (simp add: spec_stats_def min_def)
qed

lemma np_mean_nonneg:
  assumes "\<forall>b\<in>set h. 0 \<le> pixel_variance b"
  shows "0 \<le> np_mean (map pixel_variance h)"
proof -
  have "0 \<le> sum_list (map pixel_variance h)"
    using assms by (intro sum_list_nonneg) auto
  then show ?thesis by (simp add: np_mean_def)
qed

text \<open>
  C4 (as stated, refuted). Two frames of pixel variance \<open>- 1\<close>: the mean variance is
  negative, its power \<open>0.5\<close> is a complex number, and \<^verbatim>\<open>min(delta_points, 100)\<close> raises
  TypeError. No record is returned.
\<close>

theorem get_stats_negative_variance_fails:
  "get_stats negative_variance_track = Inl TypeError"
proof -
  have "bounds_history negative_variance_track
        = [(region_at 0 50)\<lparr>pixel_variance := - 1\<rparr>, (region_at 0 50)\<lparr>pixel_variance := - 1\<rparr>]"
    by (simp add: negative_variance_track_def add_frame_def new_track_def Track_init_def copy_def)
  then show ?thesis
    by (simp add: get_stats_def len_def np_mean_def Let_def)
qed

text \<open>
  C4 (amended). The result depends on the history only. With at most one entry it is the
  all-zero record. With at least two entries whose pixel variances have a non-negative
  mean (as they have when no variance is negative), it is the record of: the sum over
  consecutive frames of the distance between their midpoints; the greatest distance of a
  frame's midpoint from the first frame's; the square root of the mean variance; the mean
  and the median of the masses truncated to integers; and the score
  \<open>min (sqrt movement + max_offset) 100 + min (delta_std * 25) 100\<close>, which lies in [0, 200].
\<close>

theorem get_stats_value:
  "(length (bounds_history t) \<le> 1 \<longrightarrow> get_stats t = Inr TrackMovementStatistics_default)
   \<and> (2 \<le> length (bounds_history t) \<and> 0 \<le> np_mean (map pixel_variance (bounds_history t)) \<longrightarrow>
        get_stats t = Inr (spec_stats (bounds_history t))
        \<and> 0 \<le> score (spec_stats (bounds_history t))
        \<and> score (spec_stats (bounds_history t)) \<le> 200)
   \<and> ((\<forall>b\<in>set (bounds_history t). 0 \<le> pixel_variance b)
        \<longrightarrow> 0 \<le> np_mean (map pixel_variance (bounds_history t)))
   \<and> (bounds_history t' = bounds_history t \<longrightarrow> get_stats t' = get_stats t)"
proof (intro conjI impI)
  assume "length (bounds_history t) \<le> 1"
  then show "get_stats t = Inr TrackMovementStatistics_default"
    by (simp add: get_stats_def len_def)
next
  assume a: "2 \<le> length (bounds_history t) \<and> 0 \<le> np_mean (map pixel_variance (bounds_history t))"
  then have ne: "bounds_history t \<noteq> []" by auto
  from a show "get_stats t = Inr (spec_stats (bounds_history t))"
    by (simp add: get_stats_eq)
  from a ne show "0 \<le> score (spec_stats (bounds_history t))"
    by (simp add: score_bounds(1))
  from a ne show "score (spec_stats (bounds_history t)) \<le> 200"
    by (simp add: score_bounds(2))
next
  assume "\<forall>b\<in>set (bounds_history t). 0 \<le> pixel_variance b"
  then show "0 \<le> np_mean (map pixel_variance (bounds_history t))"
    by (rule np_mean_nonneg)
next
  assume "bounds_history t' = bounds_history t"
  then show "get_stats t' = get_stats t"
    by (simp add: get_stats_def len_def)
qed

lemma steady_track_history:
  "bounds_history steady_track = [region_at 0 10, region_at 0 10, region_at 0 10]"
  by (simp add: steady_track_def add_frame_def new_track_def Track_init_def copy_def)

lemma steady_spec_stats:
  "spec_stats [region_at 0 10, region_at 0 10, region_at 0 10]
   = \<lparr>movement = 0, max_offset = 0, score = 0, average_mass = 10, median_mass = 10,
      delta_std = 0\<rparr>"
proof -
  have e: "[0 ..< 2] = [0, 1 :: nat]" by (simp add: upt_rec)
  have "spec_movement [region_at 0 10, region_at 0 10, region_at 0 10] = 0"
    by (simp add: spec_movement_def e mid_distance_def)
  moreover have "spec_max_offset [region_at 0 10, region_at 0 10, region_at 0 10] = 0"
    by (simp add: spec_max_offset_def mid_distance_def)
  moreover have "int_masses [region_at 0 10, region_at 0 10, region_at 0 10] = [10, 10, 10]"
    by (simp add: int_masses_def region_at_def)
  moreover have "np_mean (map pixel_variance [region_at 0 10, region_at 0 10, region_at 0 10]) = 0"
    by (simp add: np_mean_def region_at_def)
  moreover have "np_mean [10, 10, 10] = 10" by (simp add: np_mean_def)
  moreover have "np_median [10, 10, 10] = 10" by (simp add: np_median_def)
  ultimately show ?thesis by (simp add: spec_stats_def)
qed

theorem get_stats_value_witness:
  "get_stats steady_track
     = Inr \<lparr>movement = 0, max_offset = 0, score = 0, average_mass = 10, median_mass = 10,
            delta_std = 0\<rparr>
   \<and> get_stats new_track = Inr TrackMovementStatistics_default"
proof -
  note s = get_stats_value [of steady_track steady_track]
  note n = get_stats_value [of new_track new_track]
  have "2 \<le> length (bounds_history steady_track)" by (simp add: steady_track_history)
  moreover have "\<forall>b\<in>set (bounds_history steady_track). 0 \<le> pixel_variance b"
    by (simp add: steady_track_history region_at_def)
  ultimately have "get_stats steady_track = Inr (spec_stats (bounds_history steady_track))"
    using s by blast
  moreover have "length (bounds_history new_track) \<le> 1"
    by (simp add: new_track_history)
  then have "get_stats new_track = Inr TrackMovementStatistics_default"
    using n by blast
  ultimately show ?thesis by (simp add: steady_track_history steady_spec_stats)
qed

end
